theory Spec2Isabelle
  imports Main
begin

section \<open>Configuration: the flag table of server.go and the cli context\<close>

text \<open>
  The flags of \<^verbatim>\<open>serverFlags\<close>, in the order of the source. Each constructor takes
  the fields the source writes: EnvVar, Name, Usage and, where the flag has one, Value.
  A flag written without a Value has Go's zero value as its default.
\<close>

datatype flag =
    StringFlag string string string string
  | IntFlag string string string int
  | BoolFlag string string string
  | StringSliceFlag string string string "string list"

definition serverFlags :: "flag list" where
  "serverFlags = [
     StringFlag ''KITSVC_NAME'' ''name''
       ''the name of the service, exposed for service discovery.'' '''',
     StringFlag ''KITSVC_URL'' ''url'' ''the url of the service.'' ''http://127.0.0.1:8080'',
     StringFlag ''KITSVC_ADDR'' ''addr''
       ''the address of the service (with the port).'' ''127.0.0.1:8080'',
     IntFlag ''KITSVC_PORT'' ''port'' ''the port of the service.'' 8080,
     StringFlag ''KITSVC_USAGE'' ''usage''
       ''the usage of the service, exposed for service discovery.'' '''',
     StringFlag ''KITSVC_JWT_SECRET'' ''jwt-secret''
       ''the secert used to encode the json web token.'' '''',
     IntFlag ''KITSVC_MAX_PING_COUNT'' ''max-ping-count'' '''' 20,
     StringFlag ''KITSVC_DATABASE_NAME'' ''database-name'' ''the name of the database.'' ''service'',
     StringFlag ''KITSVC_DATABASE_HOST'' ''database-host''
       ''the host of the database (with the port).'' ''127.0.0.1:3306'',
     StringFlag ''KITSVC_DATABASE_USER'' ''database-user'' ''the user of the database.'' '''',
     StringFlag ''KITSVC_DATABASE_PASSWORD'' ''database-password''
       ''the password of the database.'' '''',
     StringFlag ''KITSVC_DATABASE_CHARSET'' ''database-charset''
       ''the charset of the database.'' ''utf8'',
     StringFlag ''KITSVC_DATABASE_LOC'' ''database-loc'' ''the timezone of the database.'' ''Local'',
     BoolFlag ''KITSVC_DATABASE_PARSE_TIME'' ''database-parse_time'' ''parse the time.'',
     StringFlag ''KITSVC_NSQ_PRODUCER'' ''nsq-producer''
       ''the address of the TCP NSQ producer (with the port).'' ''127.0.0.1:4150'',
     StringFlag ''KITSVC_NSQ_PRODUCER_HTTP'' ''nsq-producer-http''
       ''the address of the HTTP NSQ producer (with the port).'' ''127.0.0.1:4151'',
     StringSliceFlag ''KITSVC_NSQ_LOOKUPDS'' ''nsq-lookupds''
       ''the address of the NSQ lookupds (with the port).'' [''127.0.0.1:4161''],
     StringFlag ''KITSVC_ES_SERVER_URL'' ''es-url''
       ''the url of the event store server.'' ''http://127.0.0.1:2113'',
     StringFlag ''KITSVC_ES_USERNAME'' ''es-username'' ''the username of the event store.'' '''',
     StringFlag ''KITSVC_ES_PASSWORD'' ''es-password'' ''the password of the event store.'' '''',
     StringFlag ''KITSVC_PROMETHEUS_NAMESPACE'' ''prometheus-namespace''
       ''the prometheus namespace.'' '''',
     StringFlag ''KITSVC_PROMETHEUS_SUBSYSTEM'' ''prometheus-subsystem''
       ''the subsystem of the promethues.'' '''',
     StringFlag ''KITSVC_CONSUL_CHECK_INTERVAL'' ''consul-check_interval''
       ''the interval of consul health check.'' ''10s'',
     StringFlag ''KITSVC_CONSUL_CHECK_TIMEOUT'' ''consul-check_timeout''
       ''the timeout of consul health check.'' ''1s'',
     StringSliceFlag ''KITSVC_CONSUL_TAGS'' ''consul-tags''
       ''the service tags for consul.'' [''micro'']
   ]"

fun flagName :: "flag \<Rightarrow> string" where
  "flagName (StringFlag e n u v) = n"
| "flagName (IntFlag e n u v) = n"
| "flagName (BoolFlag e n u) = n"
| "flagName (StringSliceFlag e n u v) = n"

text \<open>
  The \<^verbatim>\<open>*cli.Context\<close> handed to \<^verbatim>\<open>server\<close>: the values the command line or the
  environment variables supplied, by flag name. The cli library parses them once, in
  \<^verbatim>\<open>app.Run\<close>, before the action runs; nothing in server.go writes to the context.
  \<^verbatim>\<open>c.Int\<close> and \<^verbatim>\<open>c.String\<close> give the supplied value, else the Value of the flag
  of that name and type in the table, else the zero value.
\<close>

record cli_context =
  ints :: "string \<rightharpoonup> int"
  strings :: "string \<rightharpoonup> string"

definition lookupFlag :: "string \<Rightarrow> flag option" where
  "lookupFlag name = find (\<lambda>f. flagName f = name) serverFlags"

definition c_Int :: "cli_context \<Rightarrow> string \<Rightarrow> int" where
  "c_Int c name =
     (case ints c name of
        Some v \<Rightarrow> v
      | None \<Rightarrow> (case lookupFlag name of Some (IntFlag e n u v) \<Rightarrow> v | _ \<Rightarrow> 0))"

definition c_String :: "cli_context \<Rightarrow> string \<Rightarrow> string" where
  "c_String c name =
     (case strings c name of
        Some v \<Rightarrow> v
      | None \<Rightarrow> (case lookupFlag name of Some (StringFlag e n u v) \<Rightarrow> v | _ \<Rightarrow> ''''))"

text \<open>The context of a process started with no flag and no environment variable set.\<close>

definition defaults :: cli_context where
  "defaults = \<lparr>ints = Map.empty, strings = Map.empty\<rparr>"

text \<open>The context of a process started with only \<^verbatim>\<open>max-ping-count\<close> supplied.\<close>

definition withMaxPingCount :: "int \<Rightarrow> cli_context" where
  "withMaxPingCount n = \<lparr>ints = [''max-ping-count'' \<mapsto> n], strings = Map.empty\<rparr>"

section \<open>pingServer\<close>

text \<open>
  What \<^verbatim>\<open>http.Get\<close> returns: a response, of which the code reads the status code, or
  an error (the code ignores the response whenever the error is not nil).
\<close>

record response =
  StatusCode :: int

datatype get_result = Response response | TransportError string

text \<open>
  The effects of the code, in the order they happen. \<^verbatim>\<open>Sleep\<close> carries the
  \<^verbatim>\<open>time.Duration\<close> in nanoseconds; \<^verbatim>\<open>Register\<close> carries whether the registry
  accepted the registration, which the caller never sees.
\<close>

datatype chan_name = Deployed | Replayed | Started

datatype event =
    Get string
  | Infof string
  | Infoln string
  | Fatalln string
  | Sleep int
  | Register bool
  | Close chan_name

definition Second :: int where
  "Second = 1000000000"

datatype error = errors_New string

text \<open>The test of line 235: \<^verbatim>\<open>err == nil && resp.StatusCode == 200\<close>.\<close>

fun attempt_ok :: "get_result \<Rightarrow> bool" where
  "attempt_ok (Response resp) = (StatusCode resp = 200)"
| "attempt_ok (TransportError e) = False"

text \<open>
  The loop of \<^verbatim>\<open>pingServer\<close>, from counter \<open>i\<close> on. \<open>target k\<close> is what the
  server answers to the GET issued when the counter is \<open>k\<close>; \<open>tr\<close> collects the effects
  so far. The counter is a Go \<^verbatim>\<open>int\<close>: it is incremented only while below the
  budget, which is an \<^verbatim>\<open>int\<close> itself, so it never wraps.
\<close>

function pingServer_loop ::
  "cli_context \<Rightarrow> (nat \<Rightarrow> get_result) \<Rightarrow> int \<Rightarrow> event list \<Rightarrow> error option \<times> event list" where
  "pingServer_loop c target i tr =
     (if i < c_Int c ''max-ping-count'' then
        (let r = target (nat i);
             tr1 = tr @ [Get (c_String c ''url'' @ ''/sd/health'')]
         in if attempt_ok r then (None, tr1)
            else pingServer_loop c target (i + 1)
                   (tr1 @ [Infof ''Waiting for the router, retry in 1 second.'', Sleep Second]))
      else (Some (errors_New ''Cannot connect to the router.''), tr))"
  by pat_completeness auto
termination
  by (relation "measure (\<lambda>(c, target, i, tr). nat (c_Int c ''max-ping-count'' - i))") auto

declare pingServer_loop.simps [simp del]

definition pingServer :: "cli_context \<Rightarrow> (nat \<Rightarrow> get_result) \<Rightarrow> error option \<times> event list" where
  "pingServer c target = pingServer_loop c target 0 []"

text \<open>What a trace of effects holds: the URLs requested, and the durations slept.\<close>

fun gets :: "event list \<Rightarrow> string list" where
  "gets [] = []"
| "gets (Get u # es) = u # gets es"
| "gets (e # es) = gets es"

fun sleeps :: "event list \<Rightarrow> int list" where
  "sleeps [] = []"
| "sleeps (Sleep d # es) = d # sleeps es"
| "sleeps (e # es) = sleeps es"

definition attempts :: "event list \<Rightarrow> nat" where
  "attempts tr = length (gets tr)"

text \<open>One failed round of the loop: the request, the log line, the sleep.\<close>

definition failed_round :: "cli_context \<Rightarrow> event list" where
  "failed_round c =
     [Get (c_String c ''url'' @ ''/sd/health''),
      Infof ''Waiting for the router, retry in 1 second.'',
      Sleep Second]"

section \<open>router.Load\<close>

text \<open>
  The gin engine as far as Load uses it: the middleware chain and the route table.
  Handlers are function values in the source; here each is the name the source calls it by.
  A group built by \<^verbatim>\<open>g.Group\<close> adds its routes to the engine it was built from, under
  its base path joined with the relative path (gin's \<^verbatim>\<open>joinPaths\<close>, for the paths that
  Load passes: a relative path is empty or starts with a slash and has no dot segment).
\<close>

record route =
  httpMethod :: string
  path :: string
  handler :: string

record gin_Engine =
  middlewares :: "string list"
  routes :: "route list"

definition gin_New :: gin_Engine where
  "gin_New = \<lparr>middlewares = [], routes = []\<rparr>"

definition joinPaths :: "string \<Rightarrow> string \<Rightarrow> string" where
  "joinPaths absolutePath relativePath =
     (if relativePath = [] then absolutePath
      else if absolutePath = ''/'' then relativePath
      else absolutePath @ relativePath)"

definition Use :: "string list \<Rightarrow> gin_Engine \<Rightarrow> gin_Engine" where
  "Use mw g = g\<lparr>middlewares := middlewares g @ mw\<rparr>"

definition Group :: "string \<Rightarrow> string" where
  "Group relativePath = joinPaths ''/'' relativePath"

definition handle :: "string \<Rightarrow> string \<Rightarrow> string \<Rightarrow> string \<Rightarrow> gin_Engine \<Rightarrow> gin_Engine" where
  "handle m basePath relativePath h g =
     g\<lparr>routes := routes g @
        [\<lparr>httpMethod = m, path = joinPaths basePath relativePath, handler = h\<rparr>]\<rparr>"

text \<open>
  The engines Load is given: gin, and the event, websocket and message-queue engines
  built on it, each with the handlers Load hands to it.
\<close>

record engines =
  gin :: gin_Engine
  event :: "(string \<times> string) list"
  ws :: "(string \<times> string) list"
  mq :: "(string \<times> string \<times> string) list"

definition Load :: "engines \<Rightarrow> string list \<Rightarrow> engines" where
  "Load s mw =
     (let g = gin s;
          g = Use [''gin.LoggerWithWriter''] g;
          g = Use [''gin.Recovery''] g;
          g = Use [''header.NoCache''] g;
          g = Use [''header.Options''] g;
          g = Use [''header.Secure''] g;
          g = Use mw g;
          user = Group ''/user'';
          g = handle ''POST'' user [] ''service.CreateUser'' g;
          g = handle ''GET'' user ''/:username'' ''service.GetUser'' g;
          g = handle ''DELETE'' user ''/:id'' ''service.DeleteUser'' g;
          g = handle ''PUT'' user ''/:id'' ''service.UpdateUser'' g;
          g = handle ''POST'' user ''/token'' ''service.PostToken'' g;
          svcd = Group ''/sd'';
          g = handle ''GET'' svcd ''/health'' ''sd.HealthCheck'' g;
          g = handle ''GET'' svcd ''/disk'' ''sd.DiskCheck'' g;
          g = handle ''GET'' svcd ''/cpu'' ''sd.CPUCheck'' g;
          g = handle ''GET'' svcd ''/ram'' ''sd.RAMCheck'' g;
          g = handle ''GET'' ''/'' ''/metrics'' ''metrics.PrometheusHandler'' g
      in s\<lparr>gin := g,
            ws := ws s @ [(''/'', ''service.WatchUser'')],
            mq := mq s @ [(''user'', ''send_mail'', ''service.SendMail'')],
            event := event s @ [(''user_created'', ''service.UserCreated'')]\<rparr>)"

definition lookupRoute :: "gin_Engine \<Rightarrow> string \<Rightarrow> string \<Rightarrow> string option" where
  "lookupRoute g m p =
     map_option handler (find (\<lambda>r. httpMethod r = m \<and> path r = p) (routes g))"

text \<open>
  The sequential part of \<^verbatim>\<open>server\<close>: the engines are created, Load fills them, and
  the same gin engine is what \<^verbatim>\<open>http.ListenAndServe\<close> is given, with the address to
  listen on. The result is the pair of arguments of that call.
\<close>

definition server_listen :: "cli_context \<Rightarrow> string \<times> gin_Engine" where
  "server_listen c =
     (let s = \<lparr>gin = gin_New, event = [], ws = [], mq = []\<rparr>;
          s = Load s [''middleware.Config'', ''middleware.Store'', ''middleware.Logging'',
                      ''middleware.Event'', ''middleware.MQ'', ''middleware.Metrics'']
      in (c_String c ''addr'', gin s))"

section \<open>server: the goroutines and their interleavings\<close>

text \<open>
  A channel of the source is never sent on, only closed and received from, so its state
  is whether it is closed. A receive blocks until then; a second close panics.

  The process runs until \<^verbatim>\<open>logrus.Fatalln\<close> exits it with code 1, or
  \<^verbatim>\<open>http.ListenAndServe\<close> returns (\<^verbatim>\<open>server\<close> and then \<^verbatim>\<open>main\<close> return,
  exit code 0), or a goroutine panics.
\<close>

datatype status = Running | Exited int | Panicked

datatype goroutine = Registration | Probe | Replay

datatype reg_pc = RegReceive | RegRegister | RegClose | RegDone

datatype probe_pc = ProbePing | ProbeFatalln | ProbeExited | ProbeInfoln | ProbeClose | ProbeDone

datatype replay_pc = Replaying | ReplayDone

record state =
  status :: status
  deployed :: bool
  replayed :: bool
  started :: bool
  reg :: reg_pc
  probe :: probe_pc
  replay :: replay_pc
  trace :: "(goroutine \<times> event) list"

text \<open>
  The state when \<^verbatim>\<open>server\<close> has made its channels and started its goroutines:
  \<^verbatim>\<open>main\<close> made \<^verbatim>\<open>serverReady\<close> (the parameter \<^verbatim>\<open>started\<close>) and calls
  \<^verbatim>\<open>server\<close> once, from the one action of the app.
\<close>

definition init :: state where
  "init = \<lparr>status = Running, deployed = False, replayed = False, started = False,
           reg = RegReceive, probe = ProbePing, replay = Replaying, trace = []\<rparr>"

fun closed :: "chan_name \<Rightarrow> state \<Rightarrow> bool" where
  "closed Deployed s = deployed s"
| "closed Replayed s = replayed s"
| "closed Started s = started s"

fun set_closed :: "chan_name \<Rightarrow> state \<Rightarrow> state" where
  "set_closed Deployed s = s\<lparr>deployed := True\<rparr>"
| "set_closed Replayed s = s\<lparr>replayed := True\<rparr>"
| "set_closed Started s = s\<lparr>started := True\<rparr>"

definition emit :: "goroutine \<Rightarrow> event list \<Rightarrow> state \<Rightarrow> state" where
  "emit g es s = s\<lparr>trace := trace s @ map (Pair g) es\<rparr>"

definition close_chan :: "goroutine \<Rightarrow> chan_name \<Rightarrow> state \<Rightarrow> state" where
  "close_chan g ch s =
     (if closed ch s then s\<lparr>status := Panicked\<rparr>
      else emit g [Close ch] (set_closed ch s))"

text \<open>
  Modelled from the spec: \<^verbatim>\<open>middleware.Event\<close> and \<^verbatim>\<open>middleware.MQ\<close> (package
  router/middleware is not among the sources). The spec gives the event-replay
  collaborator one completion notification per process lifetime, so it closes
  \<^verbatim>\<open>replayed\<close> once and closes no other channel; \<^verbatim>\<open>middleware.MQ\<close> only receives
  from \<^verbatim>\<open>deployed\<close>. \<^verbatim>\<open>middleware.Event\<close> is handed \<^verbatim>\<open>deployed\<close> as well; the
  spec has the replay wait and the probe run with neither blocking the other, which is
  \<open>replay_after_deploy = False\<close>. With \<open>replay_after_deploy = True\<close> the collaborator
  receives from \<^verbatim>\<open>deployed\<close> before it closes \<^verbatim>\<open>replayed\<close>.

  The world is what the process does not decide: that, and what the service URL answers
  to each GET of the probe (\<open>target\<close>).
\<close>

record world =
  target :: "nat \<Rightarrow> get_result"
  replay_after_deploy :: bool

text \<open>
  The goroutine of lines 207 to 214: it receives from \<^verbatim>\<open>replayed\<close>, calls
  \<^verbatim>\<open>sd.Register\<close> and closes \<^verbatim>\<open>started\<close>. \<^verbatim>\<open>sd.Register\<close> (package
  module/sd is not among the sources) is a call that returns; \<open>ok\<close> is its outcome,
  which the call statement discards.
\<close>

definition step_registration :: "bool \<Rightarrow> state \<Rightarrow> state option" where
  "step_registration ok s =
     (case reg s of
        RegReceive \<Rightarrow> if replayed s then Some (s\<lparr>reg := RegRegister\<rparr>) else None
      | RegRegister \<Rightarrow> Some ((emit Registration [Register ok] s)\<lparr>reg := RegClose\<rparr>)
      | RegClose \<Rightarrow> Some ((close_chan Registration Started s)\<lparr>reg := RegDone\<rparr>)
      | RegDone \<Rightarrow> None)"

text \<open>
  The goroutine of lines 217 to 224. \<^verbatim>\<open>pingServer\<close> touches no channel, so its run is
  one step here; \<^verbatim>\<open>logrus.Fatalln\<close> logs and exits the process.
\<close>

definition step_probe :: "cli_context \<Rightarrow> world \<Rightarrow> state \<Rightarrow> state option" where
  "step_probe c w s =
     (case probe s of
        ProbePing \<Rightarrow>
          (case pingServer c (target w) of
             (Some err, tr) \<Rightarrow> Some ((emit Probe tr s)\<lparr>probe := ProbeFatalln\<rparr>)
           | (None, tr) \<Rightarrow> Some ((emit Probe tr s)\<lparr>probe := ProbeInfoln\<rparr>))
      | ProbeFatalln \<Rightarrow>
          Some ((emit Probe
                  [Fatalln ''The router has no response, or it might took too long to start up.''] s)
                \<lparr>probe := ProbeExited, status := Exited 1\<rparr>)
      | ProbeExited \<Rightarrow> None
      | ProbeInfoln \<Rightarrow>
          Some ((emit Probe [Infoln ''The router has been deployed successfully.''] s)
                \<lparr>probe := ProbeClose\<rparr>)
      | ProbeClose \<Rightarrow> Some ((close_chan Probe Deployed s)\<lparr>probe := ProbeDone\<rparr>)
      | ProbeDone \<Rightarrow> None)"

text \<open>
  Modelled from the spec: the replay collaborator, \<^verbatim>\<open>middleware.Event\<close> (package
  router/middleware is not among the sources). It closes \<^verbatim>\<open>replayed\<close> once, when the
  replay is complete; with \<open>replay_after_deploy\<close> it first receives from
  \<^verbatim>\<open>deployed\<close>.
\<close>

definition step_replay :: "world \<Rightarrow> state \<Rightarrow> state option" where
  "step_replay w s =
     (case replay s of
        Replaying \<Rightarrow>
          if replay_after_deploy w \<and> \<not> deployed s then None
          else Some ((close_chan Replay Replayed s)\<lparr>replay := ReplayDone\<rparr>)
      | ReplayDone \<Rightarrow> None)"

text \<open>
  One step of the process: the scheduler picks a goroutine that can move, or
  \<^verbatim>\<open>http.ListenAndServe\<close> returns its error and \<^verbatim>\<open>main\<close> returns. None: the
  chosen goroutine is blocked or finished, or the process is gone.
\<close>

datatype action = RunRegistration bool | RunProbe | RunReplay | ListenAndServeReturns

definition step :: "cli_context \<Rightarrow> world \<Rightarrow> state \<Rightarrow> action \<Rightarrow> state option" where
  "step c w s a =
     (if status s \<noteq> Running then None
      else case a of
        RunRegistration ok \<Rightarrow> step_registration ok s
      | RunProbe \<Rightarrow> step_probe c w s
      | RunReplay \<Rightarrow> step_replay w s
      | ListenAndServeReturns \<Rightarrow> Some (s\<lparr>status := Exited 0\<rparr>))"

fun run :: "cli_context \<Rightarrow> world \<Rightarrow> state \<Rightarrow> action list \<Rightarrow> state option" where
  "run c w s [] = Some s"
| "run c w s (a # as) = (case step c w s a of None \<Rightarrow> None | Some s' \<Rightarrow> run c w s' as)"

text \<open>What a trace of the process holds.\<close>

fun is_Register :: "event \<Rightarrow> bool" where
  "is_Register (Register ok) = True"
| "is_Register e = False"

definition registrations :: "(goroutine \<times> event) list \<Rightarrow> (goroutine \<times> event) list" where
  "registrations tr = filter (\<lambda>x. is_Register (snd x)) tr"

definition closes :: "chan_name \<Rightarrow> (goroutine \<times> event) list \<Rightarrow> (goroutine \<times> event) list" where
  "closes ch tr = filter (\<lambda>x. snd x = Close ch) tr"

definition registry_events :: "(goroutine \<times> event) list \<Rightarrow> (goroutine \<times> event) list" where
  "registry_events tr = filter (\<lambda>x. is_Register (snd x) \<or> snd x = Close Started) tr"

definition exhausted :: "cli_context \<Rightarrow> world \<Rightarrow> bool" where
  "exhausted c w = (fst (pingServer c (target w)) \<noteq> None)"

text \<open>Two worlds for the examples: the router answers 200 at once, or never answers.\<close>

definition up :: "bool \<Rightarrow> world" where
  "up after = \<lparr>target = (\<lambda>k. Response \<lparr>StatusCode = 200\<rparr>), replay_after_deploy = after\<rparr>"

definition down :: "bool \<Rightarrow> world" where
  "down after = \<lparr>target = (\<lambda>k. TransportError ''connection refused''), replay_after_deploy = after\<rparr>"

text \<open>
  The url flag and the addr flag are two flags. The probe requests the url; the process
  listens on the addr. The url names the process's own listener when it is the addr over
  http, as the two defaults are.
\<close>

definition self_targeting :: "cli_context \<Rightarrow> bool" where
  "self_targeting c \<longleftrightarrow> c_String c ''url'' = ''http://'' @ c_String c ''addr''"

text \<open>The context of a process started with only \<^verbatim>\<open>addr\<close> supplied.\<close>

definition withAddr :: "string \<Rightarrow> cli_context" where
  "withAddr a = \<lparr>ints = Map.empty, strings = [''addr'' \<mapsto> a]\<rparr>"

text \<open>
  The context of a process started with every flag supplied: \<^verbatim>\<open>max-ping-count\<close> as
  \<open>n\<close>, every other int flag as \<open>v\<close>, every string flag as \<open>txt\<close>.
\<close>

definition supplied_everywhere :: "int \<Rightarrow> int \<Rightarrow> string \<Rightarrow> cli_context" where
  "supplied_everywhere n v txt =
     \<lparr>ints = (\<lambda>name. Some (if name = ''max-ping-count'' then n else v)),
      strings = (\<lambda>name. Some txt)\<rparr>"

text \<open>
  What holds in every state the process can reach: no goroutine has panicked; exit code 1
  comes from the probe goroutine alone; each channel is closed exactly when the one
  goroutine that closes it has done so, and the trace holds that one close; the
  registration goroutine is past its receive only when \<^verbatim>\<open>replayed\<close> is closed; a
  collaborator that waits for \<^verbatim>\<open>deployed\<close> has closed \<^verbatim>\<open>replayed\<close> only after it;
  the probe goroutine is on its success path only when \<^verbatim>\<open>pingServer\<close> returned nil;
  and the trace holds the registration and the close of \<^verbatim>\<open>started\<close> as far as the
  registration goroutine has come.
\<close>

definition inv :: "cli_context \<Rightarrow> world \<Rightarrow> state \<Rightarrow> bool" where
  "inv c w s \<longleftrightarrow>
     status s \<noteq> Panicked \<and>
     (status s = Exited 1) = (probe s = ProbeExited) \<and>
     deployed s = (probe s = ProbeDone) \<and>
     replayed s = (replay s = ReplayDone) \<and>
     started s = (reg s = RegDone) \<and>
     (reg s \<noteq> RegReceive \<longrightarrow> replayed s) \<and>
     (replay_after_deploy w \<longrightarrow> replayed s \<longrightarrow> deployed s) \<and>
     (probe s \<in> {ProbeInfoln, ProbeClose, ProbeDone} \<longrightarrow> \<not> exhausted c w) \<and>
     (probe s \<in> {ProbeFatalln, ProbeExited} \<longrightarrow> exhausted c w) \<and>
     (reg s \<in> {RegReceive, RegRegister} \<longrightarrow> registry_events (trace s) = []) \<and>
     (reg s = RegClose \<longrightarrow> (\<exists>ok. registry_events (trace s) = [(Registration, Register ok)])) \<and>
     (reg s = RegDone \<longrightarrow>
        (\<exists>ok. registry_events (trace s) =
                [(Registration, Register ok), (Registration, Close Started)])) \<and>
     closes Deployed (trace s) = (if probe s = ProbeDone then [(Probe, Close Deployed)] else []) \<and>
     closes Replayed (trace s) = (if replay s = ReplayDone then [(Replay, Close Replayed)] else [])"

section \<open>Properties of pingServer\<close>

lemma gets_append: "gets (xs @ ys) = gets xs @ gets ys"
  by (induction xs rule: gets.induct) auto

lemma sleeps_append: "sleeps (xs @ ys) = sleeps xs @ sleeps ys"
  by (induction xs rule: sleeps.induct) auto

lemma gets_rounds:
  "gets (concat (replicate k (failed_round c))) = replicate k (c_String c ''url'' @ ''/sd/health'')"
  by (induction k) (auto simp: failed_round_def)

lemma sleeps_rounds:
  "sleeps (concat (replicate k (failed_round c))) = replicate k Second"
  by (induction k) (auto simp: failed_round_def)

lemma set_gets: "set (gets es) = {u. Get u \<in> set es}"
  by (induction es rule: gets.induct) auto

lemma set_sleeps: "set (sleeps es) = {d. Sleep d \<in> set es}"
  by (induction es rule: sleeps.induct) auto

lemma loop_all_fail:
  "\<forall>k. \<not> attempt_ok (t k) \<Longrightarrow>
   pingServer_loop c t i tr =
     (Some (errors_New ''Cannot connect to the router.''),
      tr @ concat (replicate (nat (c_Int c ''max-ping-count'' - i)) (failed_round c)))"
proof (induction c t i tr rule: pingServer_loop.induct)
  case (1 c t i tr)
  show ?case
  proof (cases "i < c_Int c ''max-ping-count''")
    case True
    then have n: "nat (c_Int c ''max-ping-count'' - i) = Suc (nat (c_Int c ''max-ping-count'' - (i + 1)))"
      by simp
    from True 1 show ?thesis
      by (subst pingServer_loop.simps) (simp add: n failed_round_def Let_def)
  next
    case False
    then show ?thesis by (subst pingServer_loop.simps) simp
  qed
qed

lemma loop_first_success:
  "0 \<le> i \<Longrightarrow> i \<le> j \<Longrightarrow> j < c_Int c ''max-ping-count'' \<Longrightarrow>
   \<forall>k. nat i \<le> k \<and> k < nat j \<longrightarrow> \<not> attempt_ok (t k) \<Longrightarrow> attempt_ok (t (nat j)) \<Longrightarrow>
   pingServer_loop c t i tr =
     (None, tr @ concat (replicate (nat (j - i)) (failed_round c)) @ [Get (c_String c ''url'' @ ''/sd/health'')])"
proof (induction c t i tr rule: pingServer_loop.induct)
  case (1 c t i tr)
  show ?case
  proof (cases "i = j")
    case True
    with 1 show ?thesis by (subst pingServer_loop.simps) simp
  next
    case False
    with 1 have lt: "i < j" and f: "\<not> attempt_ok (t (nat i))" by auto
    then have n: "nat (j - i) = Suc (nat (j - (i + 1)))" by simp
    have "\<forall>k. nat (i + 1) \<le> k \<and> k < nat j \<longrightarrow> \<not> attempt_ok (t k)"
      using 1 by auto
    with 1 lt f show ?thesis
      by (subst pingServer_loop.simps) (simp add: n failed_round_def Let_def)
  qed
qed

lemma loop_cong:
  "\<forall>k. attempt_ok (t1 k) = attempt_ok (t2 k) \<Longrightarrow>
   pingServer_loop c t1 i tr = pingServer_loop c t2 i tr"
proof (induction c t1 i tr rule: pingServer_loop.induct)
  case (1 c t1 i tr)
  then show ?case
    by (subst pingServer_loop.simps, subst (2) pingServer_loop.simps) (simp add: Let_def)
qed

lemma loop_events:
  "set (snd (pingServer_loop c t i tr)) \<subseteq> set tr \<union> set (failed_round c)"
proof (induction c t i tr rule: pingServer_loop.induct)
  case (1 c t i tr)
  show ?case
    using 1 by (subst pingServer_loop.simps) (auto simp: failed_round_def Let_def)
qed

lemma pingServer_events: "set (snd (pingServer c t)) \<subseteq> set (failed_round c)"
  using loop_events [of c t 0 "[]"] by (simp add: pingServer_def)

lemma c_Int_supplied: "c_Int (withMaxPingCount n) ''max-ping-count'' = n"
  by (simp add: c_Int_def withMaxPingCount_def)

lemma c_String_url: "c_String (withMaxPingCount n) ''url'' = ''http://127.0.0.1:8080''"
  by (simp add: c_String_def withMaxPingCount_def lookupFlag_def serverFlags_def)

lemma attempt_ok_iff: "attempt_ok r \<longleftrightarrow> r = Response \<lparr>StatusCode = 200\<rparr>"
  by (cases r) auto

lemma loop_success_now:
  "i < c_Int c ''max-ping-count'' \<Longrightarrow> attempt_ok (t (nat i)) \<Longrightarrow>
   pingServer_loop c t i tr = (None, tr @ [Get (c_String c ''url'' @ ''/sd/health'')])"
  by (subst pingServer_loop.simps) simp

lemma loop_retry:
  "i < c_Int c ''max-ping-count'' \<Longrightarrow> \<not> attempt_ok (t (nat i)) \<Longrightarrow>
   pingServer_loop c t i tr = pingServer_loop c t (i + 1) (tr @ failed_round c)"
  by (subst pingServer_loop.simps) (simp add: failed_round_def Let_def)

lemma loop_exhausted:
  "\<not> i < c_Int c ''max-ping-count'' \<Longrightarrow>
   pingServer_loop c t i tr = (Some (errors_New ''Cannot connect to the router.''), tr)"
  by (subst pingServer_loop.simps) simp

lemma loop_nil_iff:
  "0 \<le> i \<Longrightarrow>
   fst (pingServer_loop c t i tr) = None \<longleftrightarrow>
     (\<exists>k. nat i \<le> k \<and> int k < c_Int c ''max-ping-count'' \<and> attempt_ok (t k))"
proof (induction c t i tr rule: pingServer_loop.induct)
  case (1 c t i tr)
  show ?case
  proof (cases "i < c_Int c ''max-ping-count''")
    case False
    then show ?thesis using 1(2) by (auto simp: loop_exhausted)
  next
    case True
    show ?thesis
    proof (cases "attempt_ok (t (nat i))")
      case ok: True
      have "nat i \<le> nat i \<and> int (nat i) < c_Int c ''max-ping-count'' \<and> attempt_ok (t (nat i))"
        using True ok 1(2) by simp
      then have "\<exists>k. nat i \<le> k \<and> int k < c_Int c ''max-ping-count'' \<and> attempt_ok (t k)"
        by blast
      then show ?thesis using True ok by (simp add: loop_success_now)
    next
      case no: False
      have ih: "fst (pingServer_loop c t (i + 1) (tr @ failed_round c)) = None \<longleftrightarrow>
          (\<exists>k. nat (i + 1) \<le> k \<and> int k < c_Int c ''max-ping-count'' \<and> attempt_ok (t k))"
        using 1(1) [OF True refl refl no] 1(2) by (simp add: failed_round_def)
      have "(\<exists>k. nat (i + 1) \<le> k \<and> int k < c_Int c ''max-ping-count'' \<and> attempt_ok (t k)) \<longleftrightarrow>
            (\<exists>k. nat i \<le> k \<and> int k < c_Int c ''max-ping-count'' \<and> attempt_ok (t k))"
      proof
        assume "\<exists>k. nat (i + 1) \<le> k \<and> int k < c_Int c ''max-ping-count'' \<and> attempt_ok (t k)"
        then obtain k where "nat (i + 1) \<le> k" "int k < c_Int c ''max-ping-count''" "attempt_ok (t k)"
          by blast
        moreover then have "nat i \<le> k" by linarith
        ultimately show "\<exists>k. nat i \<le> k \<and> int k < c_Int c ''max-ping-count'' \<and> attempt_ok (t k)"
          by blast
      next
        assume "\<exists>k. nat i \<le> k \<and> int k < c_Int c ''max-ping-count'' \<and> attempt_ok (t k)"
        then obtain k where k: "nat i \<le> k" "int k < c_Int c ''max-ping-count''" "attempt_ok (t k)"
          by blast
        with no have "k \<noteq> nat i" by auto
        with k(1) 1(2) have "nat (i + 1) \<le> k" by linarith
        with k show "\<exists>k. nat (i + 1) \<le> k \<and> int k < c_Int c ''max-ping-count'' \<and> attempt_ok (t k)"
          by blast
      qed
      with ih show ?thesis using True no by (simp add: loop_retry)
    qed
  qed
qed

lemma loop_attempts_bound:
  "length (gets (snd (pingServer_loop c t i tr))) \<le>
     length (gets tr) + nat (c_Int c ''max-ping-count'' - i)"
proof (induction c t i tr rule: pingServer_loop.induct)
  case (1 c t i tr)
  show ?case
  proof (cases "i < c_Int c ''max-ping-count''")
    case False
    then show ?thesis by (simp add: loop_exhausted)
  next
    case True
    show ?thesis
    proof (cases "attempt_ok (t (nat i))")
      case ok: True
      with True show ?thesis by (simp add: loop_success_now gets_append)
    next
      case no: False
      have "length (gets (snd (pingServer_loop c t (i + 1) (tr @ failed_round c)))) \<le>
          length (gets (tr @ failed_round c)) + nat (c_Int c ''max-ping-count'' - (i + 1))"
        using 1 [OF True refl refl no] by (simp add: failed_round_def)
      with True no show ?thesis
        by (simp add: loop_retry gets_append failed_round_def)
    qed
  qed
qed

lemma loop_prefix: "\<exists>rest. snd (pingServer_loop c t i tr) = tr @ rest"
proof (induction c t i tr rule: pingServer_loop.induct)
  case (1 c t i tr)
  show ?case
  proof (cases "i < c_Int c ''max-ping-count''")
    case False
    then show ?thesis by (simp add: loop_exhausted)
  next
    case True
    show ?thesis
    proof (cases "attempt_ok (t (nat i))")
      case ok: True
      with True show ?thesis by (simp add: loop_success_now)
    next
      case no: False
      have "\<exists>rest. snd (pingServer_loop c t (i + 1) (tr @ failed_round c)) = (tr @ failed_round c) @ rest"
        using 1 [OF True refl refl no] by (simp add: failed_round_def)
      with True no show ?thesis
        by (auto simp add: loop_retry)
    qed
  qed
qed

lemma pingServer_first_get:
  assumes "1 \<le> c_Int c ''max-ping-count''"
  shows "\<exists>rest. snd (pingServer c t) = Get (c_String c ''url'' @ ''/sd/health'') # rest"
proof (cases "attempt_ok (t 0)")
  case True
  with assms show ?thesis
    using loop_success_now [of 0 c t "[]"] by (simp add: pingServer_def)
next
  case False
  with assms have "pingServer c t = pingServer_loop c t 1 (failed_round c)"
    using loop_retry [of 0 c t "[]"] by (simp add: pingServer_def)
  then show ?thesis
    using loop_prefix [of c t 1 "failed_round c"] by (auto simp: failed_round_def)
qed

text \<open>
  Claim C2. Against a target that fails every attempt, a budget \<open>n \<ge> 1\<close> makes
  \<^verbatim>\<open>pingServer\<close> issue exactly \<open>n\<close> GETs and then return the error; with a budget
  \<open>n \<le> 0\<close> it returns the error at once, with no GET (and no other effect), whatever
  the target.
\<close>

theorem pingServer_always_failing:
  assumes "c_Int c ''max-ping-count'' = n"
  shows "(1 \<le> n \<and> (\<forall>k. \<not> attempt_ok (t k)) \<longrightarrow>
            fst (pingServer c t) = Some (errors_New ''Cannot connect to the router.'') \<and>
            attempts (snd (pingServer c t)) = nat n) \<and>
         (n \<le> 0 \<longrightarrow>
            pingServer c t = (Some (errors_New ''Cannot connect to the router.''), []))"
proof (intro conjI impI)
  assume a: "1 \<le> n \<and> (\<forall>k. \<not> attempt_ok (t k))"
  then have p: "pingServer c t =
      (Some (errors_New ''Cannot connect to the router.''), concat (replicate (nat n) (failed_round c)))"
    using assms loop_all_fail [of t c 0 "[]"] by (simp add: pingServer_def)
  show "fst (pingServer c t) = Some (errors_New ''Cannot connect to the router.'')"
    by (simp add: p)
  show "attempts (snd (pingServer c t)) = nat n"
    by (simp add: p attempts_def gets_rounds)
next
  assume "n \<le> 0"
  with assms show "pingServer c t = (Some (errors_New ''Cannot connect to the router.''), [])"
    by (simp add: pingServer_def pingServer_loop.simps)
qed

theorem pingServer_always_failing_witness:
  "fst (pingServer (withMaxPingCount 3) (\<lambda>k. TransportError ''connection refused'')) =
     Some (errors_New ''Cannot connect to the router.'') \<and>
   attempts (snd (pingServer (withMaxPingCount 3) (\<lambda>k. TransportError ''connection refused''))) = 3 \<and>
   pingServer (withMaxPingCount 0) (\<lambda>k. Response \<lparr>StatusCode = 200\<rparr>) =
     (Some (errors_New ''Cannot connect to the router.''), []) \<and>
   pingServer (withMaxPingCount (- 2)) (\<lambda>k. Response \<lparr>StatusCode = 200\<rparr>) =
     (Some (errors_New ''Cannot connect to the router.''), [])"
  using pingServer_always_failing [of "withMaxPingCount 3" 3 "\<lambda>k. TransportError ''connection refused''"]
    pingServer_always_failing [of "withMaxPingCount 0" 0 "\<lambda>k. Response \<lparr>StatusCode = 200\<rparr>"]
    pingServer_always_failing [of "withMaxPingCount (- 2)" "- 2" "\<lambda>k. Response \<lparr>StatusCode = 200\<rparr>"]
  by (simp add: c_Int_supplied)

text \<open>
  Claim C3. When the target first succeeds on attempt \<open>k\<close>, within the budget,
  \<^verbatim>\<open>pingServer\<close> returns nil after exactly \<open>k\<close> GETs: \<open>k - 1\<close> failed rounds, then
  the successful GET, which is the last effect (no request and no sleep after it).
\<close>

theorem pingServer_first_success:
  assumes "1 \<le> k" and "int k \<le> c_Int c ''max-ping-count''"
    and "\<forall>j. j < k - 1 \<longrightarrow> \<not> attempt_ok (t j)" and "attempt_ok (t (k - 1))"
  shows "pingServer c t =
           (None, concat (replicate (k - 1) (failed_round c)) @
                  [Get (c_String c ''url'' @ ''/sd/health'')]) \<and>
         attempts (snd (pingServer c t)) = k \<and>
         length (sleeps (snd (pingServer c t))) = k - 1"
proof -
  have p: "pingServer c t =
      (None, concat (replicate (k - 1) (failed_round c)) @ [Get (c_String c ''url'' @ ''/sd/health'')])"
    using assms loop_first_success [of 0 "int k - 1" c t "[]"]
    by (simp add: pingServer_def nat_diff_distrib')
  show ?thesis
    using assms(1) by (simp add: p attempts_def gets_append gets_rounds sleeps_append sleeps_rounds)
qed

theorem pingServer_first_success_witness:
  "pingServer (withMaxPingCount 3)
     (\<lambda>k. if k = 2 then Response \<lparr>StatusCode = 200\<rparr> else Response \<lparr>StatusCode = 503\<rparr>) =
     (None, failed_round (withMaxPingCount 3) @ failed_round (withMaxPingCount 3) @
            [Get ''http://127.0.0.1:8080/sd/health'']) \<and>
   attempts (snd (pingServer (withMaxPingCount 3)
     (\<lambda>k. if k = 2 then Response \<lparr>StatusCode = 200\<rparr> else Response \<lparr>StatusCode = 503\<rparr>))) = 3 \<and>
   length (sleeps (snd (pingServer (withMaxPingCount 3)
     (\<lambda>k. if k = 2 then Response \<lparr>StatusCode = 200\<rparr> else Response \<lparr>StatusCode = 503\<rparr>)))) = 2"
  using pingServer_first_success [of 3 "withMaxPingCount 3"
      "\<lambda>k. if k = 2 then Response \<lparr>StatusCode = 200\<rparr> else Response \<lparr>StatusCode = 503\<rparr>"]
  by (simp add: c_Int_supplied c_String_url numeral_3_eq_3 attempts_def failed_round_def)

text \<open>
  Claim C4, on the source. With budget 5 and a target that fails every attempt,
  \<^verbatim>\<open>pingServer\<close> issues five GETs and sleeps five times, once after every failed
  attempt: the last effect before the error is returned is a sleep.
\<close>

theorem pingServer_sleeps_after_last_attempt:
  "fst (pingServer (withMaxPingCount 5) (\<lambda>k. TransportError ''connection refused'')) =
     Some (errors_New ''Cannot connect to the router.'') \<and>
   attempts (snd (pingServer (withMaxPingCount 5) (\<lambda>k. TransportError ''connection refused''))) = 5 \<and>
   sleeps (snd (pingServer (withMaxPingCount 5) (\<lambda>k. TransportError ''connection refused''))) =
     [Second, Second, Second, Second, Second] \<and>
   last (snd (pingServer (withMaxPingCount 5) (\<lambda>k. TransportError ''connection refused''))) =
     Sleep Second"
proof -
  have "pingServer (withMaxPingCount 5) (\<lambda>k. TransportError ''connection refused'') =
      (Some (errors_New ''Cannot connect to the router.''),
       concat (replicate 5 (failed_round (withMaxPingCount 5))))"
    using loop_all_fail [of "\<lambda>k. TransportError ''connection refused''" "withMaxPingCount 5" 0 "[]"]
    by (simp add: pingServer_def c_Int_supplied)
  then show ?thesis
    by (simp add: attempts_def failed_round_def numeral_eq_Suc)
qed

text \<open>
  Claim C5. An attempt succeeds exactly when \<^verbatim>\<open>http.Get\<close> gives a response, with no
  error, whose status code is 200. On such an attempt within the budget
  \<^verbatim>\<open>pingServer\<close> returns nil at once, the GET being its last effect. On any other
  answer, a transport error or another status alike, it logs, sleeps and goes on with the
  next attempt. So \<^verbatim>\<open>pingServer\<close> returns nil exactly when some attempt within the
  budget is answered 200, and two targets whose attempts succeed at the same places give
  the same result and the same effects: a failure has no outcome of its own.
\<close>

theorem attempt_success_iff:
  "(attempt_ok r \<longleftrightarrow> r = Response \<lparr>StatusCode = 200\<rparr>) \<and>
   (i < c_Int c ''max-ping-count'' \<and> t (nat i) = Response \<lparr>StatusCode = 200\<rparr> \<longrightarrow>
      pingServer_loop c t i tr = (None, tr @ [Get (c_String c ''url'' @ ''/sd/health'')])) \<and>
   (i < c_Int c ''max-ping-count'' \<and> t (nat i) \<noteq> Response \<lparr>StatusCode = 200\<rparr> \<longrightarrow>
      pingServer_loop c t i tr =
        pingServer_loop c t (i + 1)
          (tr @ [Get (c_String c ''url'' @ ''/sd/health''),
                 Infof ''Waiting for the router, retry in 1 second.'', Sleep Second])) \<and>
   (fst (pingServer c t) = None \<longleftrightarrow>
      (\<exists>k. int k < c_Int c ''max-ping-count'' \<and> t k = Response \<lparr>StatusCode = 200\<rparr>)) \<and>
   ((\<forall>k. attempt_ok (t1 k) = attempt_ok (t2 k)) \<longrightarrow> pingServer c t1 = pingServer c t2)"
proof (intro conjI impI)
  show "attempt_ok r \<longleftrightarrow> r = Response \<lparr>StatusCode = 200\<rparr>"
    by (rule attempt_ok_iff)
next
  assume "i < c_Int c ''max-ping-count'' \<and> t (nat i) = Response \<lparr>StatusCode = 200\<rparr>"
  then show "pingServer_loop c t i tr = (None, tr @ [Get (c_String c ''url'' @ ''/sd/health'')])"
    by (intro loop_success_now) simp_all
next
  assume "i < c_Int c ''max-ping-count'' \<and> t (nat i) \<noteq> Response \<lparr>StatusCode = 200\<rparr>"
  then have "i < c_Int c ''max-ping-count''" and "\<not> attempt_ok (t (nat i))"
    by (simp_all add: attempt_ok_iff)
  then show "pingServer_loop c t i tr =
        pingServer_loop c t (i + 1)
          (tr @ [Get (c_String c ''url'' @ ''/sd/health''),
                 Infof ''Waiting for the router, retry in 1 second.'', Sleep Second])"
    using loop_retry [of i c t tr] by (simp add: failed_round_def)
next
  show "fst (pingServer c t) = None \<longleftrightarrow>
      (\<exists>k. int k < c_Int c ''max-ping-count'' \<and> t k = Response \<lparr>StatusCode = 200\<rparr>)"
    using loop_nil_iff [of 0 c t "[]"] by (simp add: pingServer_def attempt_ok_iff)
next
  assume "\<forall>k. attempt_ok (t1 k) = attempt_ok (t2 k)"
  then show "pingServer c t1 = pingServer c t2"
    unfolding pingServer_def by (rule loop_cong)
qed

theorem attempt_success_iff_witness:
  "attempt_ok (Response \<lparr>StatusCode = 200\<rparr>) \<and>
   \<not> attempt_ok (Response \<lparr>StatusCode = 503\<rparr>) \<and>
   \<not> attempt_ok (TransportError ''connection refused'') \<and>
   pingServer (withMaxPingCount 2)
     (\<lambda>k. if k = 0 then Response \<lparr>StatusCode = 503\<rparr> else Response \<lparr>StatusCode = 200\<rparr>) =
     (None, [Get ''http://127.0.0.1:8080/sd/health'',
             Infof ''Waiting for the router, retry in 1 second.'', Sleep Second,
             Get ''http://127.0.0.1:8080/sd/health'']) \<and>
   pingServer (withMaxPingCount 2)
     (\<lambda>k. if k = 0 then TransportError ''connection refused''
          else Response \<lparr>StatusCode = 200\<rparr>) =
     (None, [Get ''http://127.0.0.1:8080/sd/health'',
             Infof ''Waiting for the router, retry in 1 second.'', Sleep Second,
             Get ''http://127.0.0.1:8080/sd/health'']) \<and>
   fst (pingServer (withMaxPingCount 1)
     (\<lambda>k. if k = 0 then Response \<lparr>StatusCode = 503\<rparr> else Response \<lparr>StatusCode = 200\<rparr>)) \<noteq> None"
proof -
  let ?a = "\<lambda>k::nat. if k = 0 then Response \<lparr>StatusCode = 503\<rparr> else Response \<lparr>StatusCode = 200\<rparr>"
  let ?b = "\<lambda>k::nat. if k = 0 then TransportError ''connection refused''
          else Response \<lparr>StatusCode = 200\<rparr>"
  let ?round = "[Get ''http://127.0.0.1:8080/sd/health'',
             Infof ''Waiting for the router, retry in 1 second.'', Sleep Second]"
  have ok: "attempt_ok (Response \<lparr>StatusCode = 200\<rparr>)"
    "\<not> attempt_ok (Response \<lparr>StatusCode = 503\<rparr>)"
    "\<not> attempt_ok (TransportError ''connection refused'')"
    using attempt_success_iff [of "Response \<lparr>StatusCode = 200\<rparr>" 0 defaults ?a "[]" ?a ?a]
      attempt_success_iff [of "Response \<lparr>StatusCode = 503\<rparr>" 0 defaults ?a "[]" ?a ?a]
      attempt_success_iff [of "TransportError ''connection refused''" 0 defaults ?a "[]" ?a ?a]
    by simp_all
  have a0: "pingServer_loop (withMaxPingCount 2) ?a 0 [] =
      pingServer_loop (withMaxPingCount 2) ?a 1 ?round"
    using attempt_success_iff [of "Response \<lparr>StatusCode = 200\<rparr>" 0 "withMaxPingCount 2" ?a "[]" ?a ?a]
    by (simp add: c_Int_supplied c_String_url)
  have a1: "pingServer_loop (withMaxPingCount 2) ?a 1 ?round =
      (None, ?round @ [Get ''http://127.0.0.1:8080/sd/health''])"
    using attempt_success_iff [of "Response \<lparr>StatusCode = 200\<rparr>" 1 "withMaxPingCount 2" ?a ?round ?a ?a]
    by (simp add: c_Int_supplied c_String_url)
  have a: "pingServer (withMaxPingCount 2) ?a = (None, ?round @ [Get ''http://127.0.0.1:8080/sd/health''])"
    using a0 a1 by (simp add: pingServer_def)
  have b: "pingServer (withMaxPingCount 2) ?b = pingServer (withMaxPingCount 2) ?a"
    using attempt_success_iff [of "Response \<lparr>StatusCode = 200\<rparr>" 0 "withMaxPingCount 2" ?a "[]" ?b ?a]
    by simp
  have n: "fst (pingServer (withMaxPingCount 1) ?a) \<noteq> None"
    using attempt_success_iff [of "Response \<lparr>StatusCode = 200\<rparr>" 0 "withMaxPingCount 1" ?a "[]" ?a ?a]
    by (simp add: c_Int_supplied)
  show ?thesis
    using ok a b n by simp
qed

lemma loop_sleeps_budget:
  "c_Int c1 ''max-ping-count'' = c_Int c2 ''max-ping-count'' \<Longrightarrow> sleeps tr1 = sleeps tr2 \<Longrightarrow>
   sleeps (snd (pingServer_loop c1 t i tr1)) = sleeps (snd (pingServer_loop c2 t i tr2))"
proof (induction c1 t i tr1 arbitrary: tr2 rule: pingServer_loop.induct)
  case (1 c1 t i tr1)
  show ?case
  proof (cases "i < c_Int c1 ''max-ping-count''")
    case False
    with 1(2,3) show ?thesis by (simp add: loop_exhausted)
  next
    case True
    then have True2: "i < c_Int c2 ''max-ping-count''" using 1(2) by simp
    show ?thesis
    proof (cases "attempt_ok (t (nat i))")
      case ok: True
      with True True2 1(3) show ?thesis by (simp add: loop_success_now sleeps_append)
    next
      case no: False
      have "sleeps (tr1 @ failed_round c1) = sleeps (tr2 @ failed_round c2)"
        using 1(3) by (simp add: sleeps_append failed_round_def)
      then have "sleeps (snd (pingServer_loop c1 t (i + 1) (tr1 @ failed_round c1))) =
          sleeps (snd (pingServer_loop c2 t (i + 1) (tr2 @ failed_round c2)))"
        using 1(1) [OF True refl refl no 1(2), of "tr2 @ failed_round c2"]
        by (simp add: failed_round_def)
      with True True2 no show ?thesis by (simp add: loop_retry)
    qed
  qed
qed

text \<open>
  Claim C9, as stated, on the source: the flag table has no flag for the probe's retry
  interval, and a context that supplies every flag, the two consul durations included,
  leaves every sleep of \<^verbatim>\<open>pingServer\<close> at one second. The interval is not read from
  the configuration.
\<close>

theorem interval_not_configured:
  "map flagName serverFlags =
     [''name'', ''url'', ''addr'', ''port'', ''usage'', ''jwt-secret'', ''max-ping-count'',
      ''database-name'', ''database-host'', ''database-user'', ''database-password'',
      ''database-charset'', ''database-loc'', ''database-parse_time'', ''nsq-producer'',
      ''nsq-producer-http'', ''nsq-lookupds'', ''es-url'', ''es-username'', ''es-password'',
      ''prometheus-namespace'', ''prometheus-subsystem'', ''consul-check_interval'',
      ''consul-check_timeout'', ''consul-tags''] \<and>
   c_String (supplied_everywhere 2 5 ''5s'') ''consul-check_interval'' = ''5s'' \<and>
   c_String (supplied_everywhere 2 5 ''5s'') ''consul-check_timeout'' = ''5s'' \<and>
   c_Int (supplied_everywhere 2 5 ''5s'') ''port'' = 5 \<and>
   sleeps (snd (pingServer (supplied_everywhere 2 5 ''5s'') (target (down False)))) =
     [1000000000, 1000000000] \<and>
   sleeps (snd (pingServer (withMaxPingCount 2) (target (down False)))) =
     [1000000000, 1000000000]"
  by (simp add: serverFlags_def c_String_def c_Int_def supplied_everywhere_def withMaxPingCount_def
        pingServer_def pingServer_loop.simps down_def Let_def Second_def)

text \<open>
  Claim C9, amended. The budget is the value of \<^verbatim>\<open>max-ping-count\<close> in the context:
  20 when it is not supplied, the supplied value otherwise, and \<^verbatim>\<open>pingServer\<close>
  never issues more GETs than that. The retry interval is no configuration value: every
  sleep lasts the constant \<^verbatim>\<open>time.Second\<close>, one second (in nanoseconds), in every
  context, and the sleeps depend on the context through the budget alone.
\<close>

theorem probe_configuration:
  "(ints c ''max-ping-count'' = None \<longrightarrow> c_Int c ''max-ping-count'' = 20) \<and>
   (ints c ''max-ping-count'' = Some n \<longrightarrow> c_Int c ''max-ping-count'' = n) \<and>
   attempts (snd (pingServer c t)) \<le> nat (c_Int c ''max-ping-count'') \<and>
   sleeps (snd (pingServer c t)) = replicate (length (sleeps (snd (pingServer c t)))) Second \<and>
   Second = 1000000000 \<and>
   (c_Int c ''max-ping-count'' = c_Int c' ''max-ping-count'' \<longrightarrow>
      sleeps (snd (pingServer c t)) = sleeps (snd (pingServer c' t)))"
proof (intro conjI impI)
  assume "ints c ''max-ping-count'' = None"
  then show "c_Int c ''max-ping-count'' = 20"
    by (simp add: c_Int_def lookupFlag_def serverFlags_def)
next
  assume "ints c ''max-ping-count'' = Some n"
  then show "c_Int c ''max-ping-count'' = n" by (simp add: c_Int_def)
next
  show "attempts (snd (pingServer c t)) \<le> nat (c_Int c ''max-ping-count'')"
    using loop_attempts_bound [of c t 0 "[]"] by (simp add: attempts_def pingServer_def)
next
  have "\<forall>d \<in> set (sleeps (snd (pingServer c t))). d = Second"
    using pingServer_events [of c t] by (auto simp: set_sleeps failed_round_def)
  then show "sleeps (snd (pingServer c t)) = replicate (length (sleeps (snd (pingServer c t)))) Second"
    by (simp add: replicate_length_same)
next
  show "Second = 1000000000" by (simp add: Second_def)
next
  assume "c_Int c ''max-ping-count'' = c_Int c' ''max-ping-count''"
  then show "sleeps (snd (pingServer c t)) = sleeps (snd (pingServer c' t))"
    unfolding pingServer_def by (intro loop_sleeps_budget) simp_all
qed

theorem probe_configuration_witness:
  "c_Int defaults ''max-ping-count'' = 20 \<and> c_Int (withMaxPingCount 7) ''max-ping-count'' = 7 \<and>
   attempts (snd (pingServer (withMaxPingCount 2) (\<lambda>k. TransportError ''connection refused''))) \<le> 2 \<and>
   sleeps (snd (pingServer (withMaxPingCount 2) (\<lambda>k. TransportError ''connection refused''))) =
     [1000000000, 1000000000] \<and>
   sleeps (snd (pingServer (supplied_everywhere 2 5 ''5s'') (\<lambda>k. TransportError ''connection refused''))) =
     sleeps (snd (pingServer (withMaxPingCount 2) (\<lambda>k. TransportError ''connection refused'')))"
proof -
  let ?t = "\<lambda>k::nat. TransportError ''connection refused''"
  have e: "length (sleeps (snd (pingServer (withMaxPingCount 2) ?t))) = 2"
    by (simp add: pingServer_def pingServer_loop.simps c_Int_supplied Let_def)
  have a: "c_Int defaults ''max-ping-count'' = 20"
    using probe_configuration [of defaults 0 ?t defaults]
    by (simp add: defaults_def)
  have b: "c_Int (withMaxPingCount 7) ''max-ping-count'' = 7"
    using probe_configuration [of "withMaxPingCount 7" 7 ?t defaults]
    by (simp add: withMaxPingCount_def)
  have c: "sleeps (snd (pingServer (withMaxPingCount 2) ?t)) = [Second, Second]"
    and d: "attempts (snd (pingServer (withMaxPingCount 2) ?t)) \<le> 2"
    using probe_configuration [of "withMaxPingCount 2" 2 ?t defaults]
    by (simp_all add: e numeral_2_eq_2 c_Int_supplied)
  have s: "c_Int (supplied_everywhere 2 5 ''5s'') ''max-ping-count'' =
      c_Int (withMaxPingCount 2) ''max-ping-count''"
    by (simp add: c_Int_def supplied_everywhere_def withMaxPingCount_def)
  have f: "sleeps (snd (pingServer (supplied_everywhere 2 5 ''5s'') ?t)) =
     sleeps (snd (pingServer (withMaxPingCount 2) ?t))"
    using probe_configuration [of "supplied_everywhere 2 5 ''5s''" 2 ?t "withMaxPingCount 2"] s
    by simp
  show ?thesis
    using a b c d f by (simp add: Second_def)
qed

section \<open>Properties of server\<close>

subsection \<open>The invariant\<close>

lemma filter_probe_events:
  "filter (\<lambda>x. is_Register (snd x) \<or> snd x = Close Started) (map (Pair g) (snd (pingServer c t))) = []"
  "filter (\<lambda>x. snd x = Close ch) (map (Pair g) (snd (pingServer c t))) = []"
  using pingServer_events [of c t] by (auto simp: filter_empty_conv failed_round_def)

lemma inv_init: "inv c w init"
  by (simp add: inv_def init_def registry_events_def closes_def)

lemma inv_registration:
  assumes i: "inv c w s" and st: "step_registration ok s = Some s'"
  shows "inv c w s'"
proof (cases "reg s")
  case RegReceive
  with st have "replayed s" and "s' = s\<lparr>reg := RegRegister\<rparr>"
    by (simp_all add: step_registration_def split: if_splits)
  with i RegReceive show ?thesis by (auto simp add: inv_def)
next
  case RegRegister
  with st have "s' = (emit Registration [Register ok] s)\<lparr>reg := RegClose\<rparr>"
    by (simp add: step_registration_def)
  with i RegRegister show ?thesis
    by (auto simp add: inv_def emit_def registry_events_def closes_def)
next
  case RegClose
  with i have "\<not> started s" by (simp add: inv_def)
  with st RegClose
  have "s' = (emit Registration [Close Started] (s\<lparr>started := True\<rparr>))\<lparr>reg := RegDone\<rparr>"
    by (simp add: step_registration_def close_chan_def)
  with i RegClose show ?thesis
    by (auto simp add: inv_def emit_def registry_events_def closes_def)
next
  case RegDone
  with st show ?thesis by (simp add: step_registration_def)
qed

lemma inv_replay:
  assumes i: "inv c w s" and st: "step_replay w s = Some s'"
  shows "inv c w s'"
proof (cases "replay s")
  case Replaying
  with i have "\<not> replayed s" by (simp add: inv_def)
  with st Replaying have "replay_after_deploy w \<longrightarrow> deployed s"
    and "s' = (emit Replay [Close Replayed] (s\<lparr>replayed := True\<rparr>))\<lparr>replay := ReplayDone\<rparr>"
    by (simp_all add: step_replay_def close_chan_def split: if_splits)
  with i Replaying show ?thesis
    by (auto simp add: inv_def emit_def registry_events_def closes_def)
next
  case ReplayDone
  with st show ?thesis by (simp add: step_replay_def)
qed

lemma inv_probe:
  assumes i: "inv c w s" and st: "step_probe c w s = Some s'" and r: "status s = Running"
  shows "inv c w s'"
proof (cases "probe s")
  case ProbePing
  obtain err tr where p: "pingServer c (target w) = (err, tr)"
    by (cases "pingServer c (target w)")
  then have tr: "tr = snd (pingServer c (target w))" by simp
  have s': "s' = (emit Probe tr s)\<lparr>probe := (if err = None then ProbeInfoln else ProbeFatalln)\<rparr>"
    using st ProbePing p by (cases err) (simp_all add: step_probe_def)
  have e: "exhausted c w = (err \<noteq> None)" using p by (simp add: exhausted_def)
  from i ProbePing r show ?thesis
    unfolding s' inv_def
    by (auto simp add: e emit_def registry_events_def closes_def
          filter_probe_events [where g = Probe and c = c and t = "target w", folded tr])
next
  case ProbeFatalln
  with st have "s' = (emit Probe
          [Fatalln ''The router has no response, or it might took too long to start up.''] s)
        \<lparr>probe := ProbeExited, status := Exited 1\<rparr>"
    by (simp add: step_probe_def)
  with i ProbeFatalln show ?thesis
    by (auto simp add: inv_def emit_def registry_events_def closes_def)
next
  case ProbeExited
  with st show ?thesis by (simp add: step_probe_def)
next
  case ProbeInfoln
  with st have "s' = (emit Probe [Infoln ''The router has been deployed successfully.''] s)
        \<lparr>probe := ProbeClose\<rparr>"
    by (simp add: step_probe_def)
  with i ProbeInfoln r show ?thesis
    by (auto simp add: inv_def emit_def registry_events_def closes_def)
next
  case ProbeClose
  with i have "\<not> deployed s" by (simp add: inv_def)
  with st ProbeClose
  have "s' = (emit Probe [Close Deployed] (s\<lparr>deployed := True\<rparr>))\<lparr>probe := ProbeDone\<rparr>"
    by (simp add: step_probe_def close_chan_def)
  with i ProbeClose r show ?thesis
    by (auto simp add: inv_def emit_def registry_events_def closes_def)
next
  case ProbeDone
  with st show ?thesis by (simp add: step_probe_def)
qed

lemma step_Running: "step c w s a = Some s' \<Longrightarrow> status s = Running"
  by (simp add: step_def split: if_splits)

lemma inv_step:
  assumes i: "inv c w s" and st: "step c w s a = Some s'"
  shows "inv c w s'"
proof -
  from st have r: "status s = Running" by (rule step_Running)
  show ?thesis
  proof (cases a)
    case (RunRegistration ok)
    with st r have "step_registration ok s = Some s'" by (simp add: step_def)
    with i show ?thesis by (rule inv_registration)
  next
    case RunProbe
    with st r have "step_probe c w s = Some s'" by (simp add: step_def)
    with i show ?thesis using r by (rule inv_probe)
  next
    case RunReplay
    with st r have "step_replay w s = Some s'" by (simp add: step_def)
    with i show ?thesis by (rule inv_replay)
  next
    case ListenAndServeReturns
    with st r have "s' = s\<lparr>status := Exited 0\<rparr>" by (simp add: step_def)
    with i r show ?thesis by (auto simp add: inv_def)
  qed
qed

lemma inv_run: "inv c w s \<Longrightarrow> run c w s as = Some s' \<Longrightarrow> inv c w s'"
proof (induction as arbitrary: s)
  case Nil
  then show ?case by simp
next
  case (Cons a as)
  then obtain s1 where "step c w s a = Some s1" and "run c w s1 as = Some s'"
    by (auto split: option.splits)
  with Cons show ?case using inv_step by blast
qed

lemma inv_reachable: "run c w init as = Some s \<Longrightarrow> inv c w s"
  using inv_init inv_run by blast

lemma registrations_of_registry_events:
  "registrations tr = filter (\<lambda>x. is_Register (snd x)) (registry_events tr)"
  by (auto simp: registrations_def registry_events_def intro: filter_cong)

lemma closes_Started_of_registry_events:
  "closes Started tr = filter (\<lambda>x. snd x = Close Started) (registry_events tr)"
  by (auto simp: closes_def registry_events_def intro: filter_cong)

lemma inv_D:
  assumes "inv c w s"
  shows "status s \<noteq> Panicked"
    and "(status s = Exited 1) = (probe s = ProbeExited)"
    and "deployed s = (probe s = ProbeDone)"
    and "replayed s = (replay s = ReplayDone)"
    and "started s = (reg s = RegDone)"
    and "reg s \<noteq> RegReceive \<Longrightarrow> replayed s"
    and "replay_after_deploy w \<Longrightarrow> replayed s \<Longrightarrow> deployed s"
    and "probe s \<in> {ProbeInfoln, ProbeClose, ProbeDone} \<Longrightarrow> \<not> exhausted c w"
    and "probe s \<in> {ProbeFatalln, ProbeExited} \<Longrightarrow> exhausted c w"
    and "reg s \<in> {RegReceive, RegRegister} \<Longrightarrow> registry_events (trace s) = []"
    and "reg s = RegClose \<Longrightarrow> \<exists>ok. registry_events (trace s) = [(Registration, Register ok)]"
    and "reg s = RegDone \<Longrightarrow>
           \<exists>ok. registry_events (trace s) =
                  [(Registration, Register ok), (Registration, Close Started)]"
    and "closes Deployed (trace s) = (if probe s = ProbeDone then [(Probe, Close Deployed)] else [])"
    and "closes Replayed (trace s) = (if replay s = ReplayDone then [(Replay, Close Replayed)] else [])"
  using assms unfolding inv_def by blast+

lemma inv_registrations:
  assumes "inv c w s"
  shows "registrations (trace s) \<noteq> [] \<longleftrightarrow> reg s \<in> {RegClose, RegDone}"
    and "length (registrations (trace s)) \<le> 1"
    and "closes Started (trace s) = (if started s then [(Registration, Close Started)] else [])"
proof -
  note d = inv_D(5,10,11,12) [OF assms]
  show "registrations (trace s) \<noteq> [] \<longleftrightarrow> reg s \<in> {RegClose, RegDone}"
    using d unfolding registrations_of_registry_events by (cases "reg s") auto
  show "length (registrations (trace s)) \<le> 1"
    using d unfolding registrations_of_registry_events by (cases "reg s") auto
  show "closes Started (trace s) = (if started s then [(Registration, Close Started)] else [])"
    using d unfolding closes_Started_of_registry_events by (cases "reg s") auto
qed

subsection \<open>Evaluating runs\<close>

lemma c_Int_defaults: "c_Int defaults ''max-ping-count'' = 20"
  by (simp add: c_Int_def defaults_def lookupFlag_def serverFlags_def)

lemma c_String_defaults:
  "c_String defaults ''url'' = ''http://127.0.0.1:8080''"
  "c_String defaults ''addr'' = ''127.0.0.1:8080''"
  by (simp_all add: c_String_def defaults_def lookupFlag_def serverFlags_def)

lemmas run_eval =
  step_def step_registration_def step_probe_def step_replay_def close_chan_def emit_def
  init_def pingServer_def pingServer_loop.simps c_Int_defaults c_String_defaults
  c_Int_supplied c_String_url up_def down_def Let_def

subsection \<open>Registration and the two preconditions\<close>

text \<open>
  Claim C1, as stated, on the source: the registration goroutine receives from
  \<^verbatim>\<open>replayed\<close> alone. When the replay collaborator closes \<^verbatim>\<open>replayed\<close> before the
  probe has run, \<^verbatim>\<open>sd.Register\<close> is called and \<^verbatim>\<open>started\<close> is closed while
  \<^verbatim>\<open>deployed\<close> is still open.
\<close>

theorem registration_before_deployed:
  "run defaults (up False) init
     [RunReplay, RunRegistration True, RunRegistration True, RunRegistration True] =
   Some \<lparr>status = Running, deployed = False, replayed = True, started = True,
         reg = RegDone, probe = ProbePing, replay = ReplayDone,
         trace = [(Replay, Close Replayed), (Registration, Register True),
                  (Registration, Close Started)]\<rparr>"
  by (simp add: run_eval)

text \<open>
  Claim C1, amended. In every state the process reaches, a registration has happened
  only if \<^verbatim>\<open>replayed\<close> is closed, and \<^verbatim>\<open>started\<close> is closed only after a
  registration. \<^verbatim>\<open>server\<close> does not wait for \<^verbatim>\<open>deployed\<close> itself: registration
  follows the probe's success whenever the replay collaborator, which is handed both
  channels, closes \<^verbatim>\<open>replayed\<close> only after \<^verbatim>\<open>deployed\<close> is closed.
\<close>

theorem registration_after_replayed:
  assumes "run c w init as = Some s"
  shows "(registrations (trace s) \<noteq> [] \<longrightarrow> replayed s) \<and>
         (started s \<longrightarrow> registrations (trace s) \<noteq> [] \<and> replayed s) \<and>
         (replay_after_deploy w \<longrightarrow> registrations (trace s) \<noteq> [] \<longrightarrow>
            deployed s \<and> \<not> exhausted c w)"
proof -
  have i: "inv c w s" using assms by (rule inv_reachable)
  have r: "registrations (trace s) \<noteq> [] \<longleftrightarrow> reg s \<in> {RegClose, RegDone}"
    by (rule inv_registrations(1) [OF i])
  have "reg s \<in> {RegClose, RegDone} \<longrightarrow> replayed s"
    using inv_D(6) [OF i] by auto
  moreover have "started s \<longrightarrow> reg s \<in> {RegClose, RegDone}"
    using inv_D(5) [OF i] by simp
  moreover have "replay_after_deploy w \<longrightarrow> replayed s \<longrightarrow> deployed s \<and> \<not> exhausted c w"
    using inv_D(3,7,8) [OF i] by auto
  ultimately show ?thesis
    unfolding r by blast
qed

theorem registration_after_replayed_witness:
  "run defaults (up True) init
     [RunProbe, RunProbe, RunProbe, RunReplay,
      RunRegistration False, RunRegistration False, RunRegistration False] =
   Some \<lparr>status = Running, deployed = True, replayed = True, started = True,
         reg = RegDone, probe = ProbeDone, replay = ReplayDone,
         trace = [(Probe, Get ''http://127.0.0.1:8080/sd/health''),
                  (Probe, Infoln ''The router has been deployed successfully.''),
                  (Probe, Close Deployed), (Replay, Close Replayed),
                  (Registration, Register False), (Registration, Close Started)]\<rparr> \<and>
   replay_after_deploy (up True) \<and>
   registrations [(Probe, Get ''http://127.0.0.1:8080/sd/health''),
                  (Probe, Infoln ''The router has been deployed successfully.''),
                  (Probe, Close Deployed), (Replay, Close Replayed),
                  (Registration, Register False), (Registration, Close Started)] \<noteq> [] \<and>
   \<not> exhausted defaults (up True)"
proof -
  have r: "run defaults (up True) init
     [RunProbe, RunProbe, RunProbe, RunReplay,
      RunRegistration False, RunRegistration False, RunRegistration False] =
   Some \<lparr>status = Running, deployed = True, replayed = True, started = True,
         reg = RegDone, probe = ProbeDone, replay = ReplayDone,
         trace = [(Probe, Get ''http://127.0.0.1:8080/sd/health''),
                  (Probe, Infoln ''The router has been deployed successfully.''),
                  (Probe, Close Deployed), (Replay, Close Replayed),
                  (Registration, Register False), (Registration, Close Started)]\<rparr>"
    by (simp add: run_eval)
  show ?thesis
    using registration_after_replayed [OF r] r by (simp add: up_def)
qed

subsection \<open>Probe exhaustion\<close>

lemma step_not_Running: "status s \<noteq> Running \<Longrightarrow> step c w s a = None"
  by (simp add: step_def)

lemma probe_exits:
  assumes "status s = Running" and "exhausted c w" and "probe s = ProbePing \<or> probe s = ProbeFatalln"
  shows "\<exists>s'. (run c w s [RunProbe] = Some s' \<or> run c w s [RunProbe, RunProbe] = Some s') \<and>
              status s' = Exited 1 \<and>
              last (trace s') =
                (Probe, Fatalln ''The router has no response, or it might took too long to start up.'')"
proof -
  obtain err tr where p: "pingServer c (target w) = (Some err, tr)"
    using assms(2) by (cases "pingServer c (target w)") (auto simp: exhausted_def)
  let ?f = "(Probe, Fatalln ''The router has no response, or it might took too long to start up.'')"
  from assms(3) show ?thesis
  proof
    assume "probe s = ProbePing"
    with assms(1) p have "run c w s [RunProbe, RunProbe] =
        Some (s\<lparr>trace := trace s @ map (Pair Probe) tr @ [?f],
                probe := ProbeExited, status := Exited 1\<rparr>)"
      by (simp add: step_def step_probe_def emit_def)
    then show ?thesis
      by (intro exI [of _ "s\<lparr>trace := trace s @ map (Pair Probe) tr @ [?f],
                probe := ProbeExited, status := Exited 1\<rparr>"]) simp
  next
    assume "probe s = ProbeFatalln"
    with assms(1) have "run c w s [RunProbe] =
        Some (s\<lparr>trace := trace s @ [?f], probe := ProbeExited, status := Exited 1\<rparr>)"
      by (simp add: step_def step_probe_def emit_def)
    then show ?thesis
      by (intro exI [of _ "s\<lparr>trace := trace s @ [?f], probe := ProbeExited, status := Exited 1\<rparr>"])
         simp
  qed
qed

text \<open>
  Claim C6, as stated, on the source: with budget 5 and a router that never answers, the
  replay collaborator closes \<^verbatim>\<open>replayed\<close> while the probe is still due, the
  registration goroutine calls \<^verbatim>\<open>sd.Register\<close>, and then the probe exhausts its
  budget and \<^verbatim>\<open>logrus.Fatalln\<close> exits the process: a registration in the lifetime of
  a process whose probe failed.
\<close>

theorem registration_before_fatal_exit:
  "map_option status
     (run (withMaxPingCount 5) (down False) init
        [RunReplay, RunRegistration True, RunRegistration True, RunProbe, RunProbe]) =
     Some (Exited 1) \<and>
   map_option (registrations \<circ> trace)
     (run (withMaxPingCount 5) (down False) init
        [RunReplay, RunRegistration True, RunRegistration True, RunProbe, RunProbe]) =
     Some [(Registration, Register True)] \<and>
   exhausted (withMaxPingCount 5) (down False)"
  by (simp add: run_eval exhausted_def registrations_def)

text \<open>
  Claim C6, amended. When the probe exhausts its budget, \<^verbatim>\<open>deployed\<close> is never
  closed; as long as the process runs, the probe goroutine's next one or two steps log
  the fatal line and exit the process with code 1; once the process is gone nothing
  moves any more (no error value is handed on, nothing restarts), so no registration
  follows the exit. A registration before the exit is excluded when the replay
  collaborator closes \<^verbatim>\<open>replayed\<close> only after \<^verbatim>\<open>deployed\<close>: then the
  registration collaborator is never called in that process lifetime.
\<close>

theorem fatal_exit_on_exhaustion:
  assumes "run c w init as = Some s" and "exhausted c w"
  shows "\<not> deployed s \<and> closes Deployed (trace s) = [] \<and>
         (status s = Running \<longrightarrow>
            (\<exists>s'. (run c w s [RunProbe] = Some s' \<or> run c w s [RunProbe, RunProbe] = Some s') \<and>
                  status s' = Exited 1 \<and>
                  last (trace s') =
                    (Probe, Fatalln ''The router has no response, or it might took too long to start up.''))) \<and>
         (status s \<noteq> Running \<longrightarrow> (\<forall>a. step c w s a = None)) \<and>
         (replay_after_deploy w \<longrightarrow> registrations (trace s) = [] \<and> \<not> started s)"
proof -
  have i: "inv c w s" using assms(1) by (rule inv_reachable)
  have p: "probe s \<notin> {ProbeInfoln, ProbeClose, ProbeDone}"
    using inv_D(8) [OF i] assms(2) by blast
  then have d: "\<not> deployed s" using inv_D(3) [OF i] by simp
  have cd: "closes Deployed (trace s) = []"
    using inv_D(13) [OF i] p by simp
  have live: "status s = Running \<longrightarrow>
            (\<exists>s'. (run c w s [RunProbe] = Some s' \<or> run c w s [RunProbe, RunProbe] = Some s') \<and>
                  status s' = Exited 1 \<and>
                  last (trace s') =
                    (Probe, Fatalln ''The router has no response, or it might took too long to start up.''))"
  proof
    assume r: "status s = Running"
    then have "probe s \<noteq> ProbeExited" using inv_D(2) [OF i] by auto
    with p have "probe s = ProbePing \<or> probe s = ProbeFatalln" by (cases "probe s") auto
    with r assms(2) show "\<exists>s'. (run c w s [RunProbe] = Some s' \<or> run c w s [RunProbe, RunProbe] = Some s') \<and>
                  status s' = Exited 1 \<and>
                  last (trace s') =
                    (Probe, Fatalln ''The router has no response, or it might took too long to start up.'')"
      by (rule probe_exits)
  qed
  have dead: "status s \<noteq> Running \<longrightarrow> (\<forall>a. step c w s a = None)"
    by (simp add: step_not_Running)
  have chained: "replay_after_deploy w \<longrightarrow> registrations (trace s) = [] \<and> \<not> started s"
  proof
    assume "replay_after_deploy w"
    with d have "\<not> replayed s" using inv_D(7) [OF i] by blast
    then have "reg s = RegReceive" using inv_D(6) [OF i] by blast
    then show "registrations (trace s) = [] \<and> \<not> started s"
      using inv_registrations(1) [OF i] inv_D(5) [OF i] by simp
  qed
  from d cd live dead chained show ?thesis by blast
qed

theorem fatal_exit_on_exhaustion_witness:
  "run (withMaxPingCount 1) (down True) init [RunProbe] =
     Some \<lparr>status = Running, deployed = False, replayed = False, started = False,
           reg = RegReceive, probe = ProbeFatalln, replay = Replaying,
           trace = [(Probe, Get ''http://127.0.0.1:8080/sd/health''),
                    (Probe, Infof ''Waiting for the router, retry in 1 second.''),
                    (Probe, Sleep Second)]\<rparr> \<and>
   exhausted (withMaxPingCount 1) (down True) \<and>
   replay_after_deploy (down True) \<and>
   run (withMaxPingCount 1) (down True) init [RunProbe, RunReplay] = None \<and>
   map_option status (run (withMaxPingCount 1) (down True) init [RunProbe, RunProbe]) =
     Some (Exited 1) \<and>
   registrations [(Probe, Get ''http://127.0.0.1:8080/sd/health''),
                  (Probe, Infof ''Waiting for the router, retry in 1 second.''),
                  (Probe, Sleep Second)] = []"
proof -
  have r: "run (withMaxPingCount 1) (down True) init [RunProbe] =
     Some \<lparr>status = Running, deployed = False, replayed = False, started = False,
           reg = RegReceive, probe = ProbeFatalln, replay = Replaying,
           trace = [(Probe, Get ''http://127.0.0.1:8080/sd/health''),
                    (Probe, Infof ''Waiting for the router, retry in 1 second.''),
                    (Probe, Sleep Second)]\<rparr>"
    by (simp add: run_eval)
  have e: "exhausted (withMaxPingCount 1) (down True)"
    by (simp add: run_eval exhausted_def)
  have x: "run (withMaxPingCount 1) (down True) init [RunProbe, RunReplay] = None"
    "map_option status (run (withMaxPingCount 1) (down True) init [RunProbe, RunProbe]) =
       Some (Exited 1)"
    by (simp_all add: run_eval)
  show ?thesis
    using fatal_exit_on_exhaustion [OF r e] r e x by (simp add: down_def)
qed

subsection \<open>One registration, one close of started\<close>

lemma register_then_close:
  assumes "status s = Running" and "reg s = RegRegister" and "\<not> started s"
    and "registry_events (trace s) = []"
  shows "\<exists>s'. run c w s [RunRegistration ok, RunRegistration ok] = Some s' \<and> started s' \<and>
              registry_events (trace s') =
                [(Registration, Register ok), (Registration, Close Started)]"
proof -
  let ?s' = "s\<lparr>trace := trace s @ [(Registration, Register ok), (Registration, Close Started)],
                started := True, reg := RegDone\<rparr>"
  have "run c w s [RunRegistration ok, RunRegistration ok] = Some ?s'"
    using assms(1,2,3) by (simp add: step_def step_registration_def close_chan_def emit_def)
  moreover have "registry_events (trace ?s') =
      [(Registration, Register ok), (Registration, Close Started)]"
    using assms(4) by (simp add: registry_events_def)
  ultimately show ?thesis
    by (intro exI [of _ ?s']) simp
qed

text \<open>
  Claim C7, as stated, on the source: a process lifetime need not hold one registration
  and one close. When \<^verbatim>\<open>http.ListenAndServe\<close> returns before the registration
  goroutine has run, the process ends with no call of \<^verbatim>\<open>sd.Register\<close>; when it
  returns between the call and the close, the process ends registered with
  \<^verbatim>\<open>started\<close> still open.
\<close>

theorem lifetime_without_registration:
  "run defaults (up False) init [RunReplay, ListenAndServeReturns] =
     Some \<lparr>status = Exited 0, deployed = False, replayed = True, started = False,
           reg = RegReceive, probe = ProbePing, replay = ReplayDone,
           trace = [(Replay, Close Replayed)]\<rparr> \<and>
   registrations [(Replay, Close Replayed)] = [] \<and>
   run defaults (up False) init
     [RunReplay, RunRegistration True, RunRegistration True, ListenAndServeReturns] =
     Some \<lparr>status = Exited 0, deployed = False, replayed = True, started = False,
           reg = RegClose, probe = ProbePing, replay = ReplayDone,
           trace = [(Replay, Close Replayed), (Registration, Register True)]\<rparr> \<and>
   closes Started [(Replay, Close Replayed), (Registration, Register True)] = []"
  by (simp add: run_eval registrations_def closes_def)

text \<open>
  Claim C7, amended. In every state the process reaches, \<^verbatim>\<open>sd.Register\<close> has been
  called at most once and \<^verbatim>\<open>started\<close> closed at most once, the close only after the
  registration; when \<^verbatim>\<open>started\<close> is closed, each has happened exactly once, the
  registration first. Whatever the outcome of the registration call, the registration
  goroutine's next step closes \<^verbatim>\<open>started\<close>: the outcome is recorded nowhere the code
  reads.
\<close>

theorem registration_once:
  assumes "run c w init as = Some s"
  shows "length (registrations (trace s)) \<le> 1 \<and>
         length (closes Started (trace s)) \<le> 1 \<and>
         (closes Started (trace s) \<noteq> [] \<longrightarrow> started s \<and> registrations (trace s) \<noteq> []) \<and>
         (started s \<longrightarrow>
            (\<exists>ok. registry_events (trace s) =
                    [(Registration, Register ok), (Registration, Close Started)] \<and>
                  registrations (trace s) = [(Registration, Register ok)]) \<and>
            closes Started (trace s) = [(Registration, Close Started)]) \<and>
         (reg s = RegRegister \<and> status s = Running \<longrightarrow>
            (\<forall>ok. \<exists>s'. run c w s [RunRegistration ok, RunRegistration ok] = Some s' \<and>
                       started s' \<and>
                       registry_events (trace s') =
                         [(Registration, Register ok), (Registration, Close Started)]))"
proof -
  have i: "inv c w s" using assms by (rule inv_reachable)
  have a: "length (registrations (trace s)) \<le> 1"
    by (rule inv_registrations(2) [OF i])
  have b: "length (closes Started (trace s)) \<le> 1"
    using inv_registrations(3) [OF i] by simp
  have e: "closes Started (trace s) \<noteq> [] \<longrightarrow> started s \<and> registrations (trace s) \<noteq> []"
  proof
    assume "closes Started (trace s) \<noteq> []"
    then have st: "started s" using inv_registrations(3) [OF i] by (simp split: if_splits)
    then have "reg s = RegDone" using inv_D(5) [OF i] by simp
    then have "registrations (trace s) \<noteq> []" using inv_registrations(1) [OF i] by simp
    with st show "started s \<and> registrations (trace s) \<noteq> []" by simp
  qed
  have c: "started s \<longrightarrow>
            (\<exists>ok. registry_events (trace s) =
                    [(Registration, Register ok), (Registration, Close Started)] \<and>
                  registrations (trace s) = [(Registration, Register ok)]) \<and>
            closes Started (trace s) = [(Registration, Close Started)]"
  proof
    assume st: "started s"
    then have "reg s = RegDone" using inv_D(5) [OF i] by simp
    then obtain ok where "registry_events (trace s) =
        [(Registration, Register ok), (Registration, Close Started)]"
      using inv_D(12) [OF i] by blast
    then have "registry_events (trace s) =
                    [(Registration, Register ok), (Registration, Close Started)] \<and>
               registrations (trace s) = [(Registration, Register ok)]"
      by (simp add: registrations_of_registry_events)
    moreover have "closes Started (trace s) = [(Registration, Close Started)]"
      using inv_registrations(3) [OF i] st by simp
    ultimately show "(\<exists>ok. registry_events (trace s) =
                    [(Registration, Register ok), (Registration, Close Started)] \<and>
                  registrations (trace s) = [(Registration, Register ok)]) \<and>
            closes Started (trace s) = [(Registration, Close Started)]"
      by blast
  qed
  have d: "reg s = RegRegister \<and> status s = Running \<longrightarrow>
            (\<forall>ok. \<exists>s'. run c w s [RunRegistration ok, RunRegistration ok] = Some s' \<and>
                       started s' \<and>
                       registry_events (trace s') =
                         [(Registration, Register ok), (Registration, Close Started)])"
  proof (intro impI allI)
    fix ok
    assume h: "reg s = RegRegister \<and> status s = Running"
    then have "\<not> started s" and "registry_events (trace s) = []"
      using inv_D(5,10) [OF i] by simp_all
    with h show "\<exists>s'. run c w s [RunRegistration ok, RunRegistration ok] = Some s' \<and>
                       started s' \<and>
                       registry_events (trace s') =
                         [(Registration, Register ok), (Registration, Close Started)]"
      by (intro register_then_close) simp_all
  qed
  from a b e c d show ?thesis by blast
qed

theorem registration_once_witness:
  "run defaults (up False) init [RunReplay, RunRegistration True] =
     Some \<lparr>status = Running, deployed = False, replayed = True, started = False,
           reg = RegRegister, probe = ProbePing, replay = ReplayDone,
           trace = [(Replay, Close Replayed)]\<rparr> \<and>
   run defaults (up False) init
     [RunReplay, RunRegistration True, RunRegistration False, RunRegistration False] =
     Some \<lparr>status = Running, deployed = False, replayed = True, started = True,
           reg = RegDone, probe = ProbePing, replay = ReplayDone,
           trace = [(Replay, Close Replayed), (Registration, Register False),
                    (Registration, Close Started)]\<rparr> \<and>
   registrations [(Replay, Close Replayed), (Registration, Register False),
                  (Registration, Close Started)] = [(Registration, Register False)] \<and>
   closes Started [(Replay, Close Replayed), (Registration, Register False),
                   (Registration, Close Started)] = [(Registration, Close Started)]"
proof -
  have r1: "run defaults (up False) init [RunReplay, RunRegistration True] =
     Some \<lparr>status = Running, deployed = False, replayed = True, started = False,
           reg = RegRegister, probe = ProbePing, replay = ReplayDone,
           trace = [(Replay, Close Replayed)]\<rparr>"
    by (simp add: run_eval)
  have r2: "run defaults (up False) init
     [RunReplay, RunRegistration True, RunRegistration False, RunRegistration False] =
     Some \<lparr>status = Running, deployed = False, replayed = True, started = True,
           reg = RegDone, probe = ProbePing, replay = ReplayDone,
           trace = [(Replay, Close Replayed), (Registration, Register False),
                    (Registration, Close Started)]\<rparr>"
    by (simp add: run_eval)
  show ?thesis
    using registration_once [OF r2] r1 r2 by (simp add: registrations_def closes_def)
qed

subsection \<open>No channel is closed twice\<close>

text \<open>
  Claim C10. No state the process reaches has panicked on a second close: the trace holds
  at most one close of each channel, \<^verbatim>\<open>deployed\<close> by the probe goroutine (and only
  when \<^verbatim>\<open>pingServer\<close> returned nil), \<^verbatim>\<open>replayed\<close> by the replay collaborator,
  \<^verbatim>\<open>started\<close> by the registration goroutine, and a channel is closed exactly when the
  trace holds its close.
\<close>

theorem channels_closed_once:
  assumes "run c w init as = Some s"
  shows "status s \<noteq> Panicked \<and>
         closes Deployed (trace s) = (if deployed s then [(Probe, Close Deployed)] else []) \<and>
         closes Replayed (trace s) = (if replayed s then [(Replay, Close Replayed)] else []) \<and>
         closes Started (trace s) = (if started s then [(Registration, Close Started)] else []) \<and>
         (deployed s \<longrightarrow> \<not> exhausted c w)"
proof -
  have i: "inv c w s" using assms by (rule inv_reachable)
  have "status s \<noteq> Panicked" by (rule inv_D(1) [OF i])
  moreover have "closes Deployed (trace s) = (if deployed s then [(Probe, Close Deployed)] else [])"
    using inv_D(3,13) [OF i] by simp
  moreover have "closes Replayed (trace s) = (if replayed s then [(Replay, Close Replayed)] else [])"
    using inv_D(4,14) [OF i] by simp
  moreover have "closes Started (trace s) = (if started s then [(Registration, Close Started)] else [])"
    by (rule inv_registrations(3) [OF i])
  moreover have "deployed s \<longrightarrow> \<not> exhausted c w"
    using inv_D(3,8) [OF i] by simp
  ultimately show ?thesis by blast
qed

theorem channels_closed_once_witness:
  "run defaults (up False) init
     [RunReplay, RunProbe, RunRegistration True, RunProbe, RunRegistration True, RunProbe,
      RunRegistration True] =
     Some \<lparr>status = Running, deployed = True, replayed = True, started = True,
           reg = RegDone, probe = ProbeDone, replay = ReplayDone,
           trace = [(Replay, Close Replayed),
                    (Probe, Get ''http://127.0.0.1:8080/sd/health''),
                    (Probe, Infoln ''The router has been deployed successfully.''),
                    (Registration, Register True),
                    (Probe, Close Deployed),
                    (Registration, Close Started)]\<rparr> \<and>
   \<not> exhausted defaults (up False) \<and>
   run defaults (up False) init
     [RunReplay, RunProbe, RunRegistration True, RunProbe, RunRegistration True, RunProbe,
      RunRegistration True, RunProbe] = None \<and>
   run defaults (up False) init
     [RunReplay, RunProbe, RunRegistration True, RunProbe, RunRegistration True, RunProbe,
      RunRegistration True, RunRegistration True] = None \<and>
   run defaults (up False) init
     [RunReplay, RunProbe, RunRegistration True, RunProbe, RunRegistration True, RunProbe,
      RunRegistration True, RunReplay] = None"
proof -
  have r: "run defaults (up False) init
     [RunReplay, RunProbe, RunRegistration True, RunProbe, RunRegistration True, RunProbe,
      RunRegistration True] =
     Some \<lparr>status = Running, deployed = True, replayed = True, started = True,
           reg = RegDone, probe = ProbeDone, replay = ReplayDone,
           trace = [(Replay, Close Replayed),
                    (Probe, Get ''http://127.0.0.1:8080/sd/health''),
                    (Probe, Infoln ''The router has been deployed successfully.''),
                    (Registration, Register True),
                    (Probe, Close Deployed),
                    (Registration, Close Started)]\<rparr>"
    by (simp add: run_eval)
  have n: "run defaults (up False) init
     [RunReplay, RunProbe, RunRegistration True, RunProbe, RunRegistration True, RunProbe,
      RunRegistration True, RunProbe] = None"
   "run defaults (up False) init
     [RunReplay, RunProbe, RunRegistration True, RunProbe, RunRegistration True, RunProbe,
      RunRegistration True, RunRegistration True] = None"
   "run defaults (up False) init
     [RunReplay, RunProbe, RunRegistration True, RunProbe, RunRegistration True, RunProbe,
      RunRegistration True, RunReplay] = None"
    by (simp_all add: run_eval)
  show ?thesis
    using channels_closed_once [OF r] r n by simp
qed

subsection \<open>The probe and the served routes\<close>

text \<open>
  Claim C8, as stated, on the source: the url and the addr are separate flags. Started
  with only the addr moved to port 18081, the process listens there while
  \<^verbatim>\<open>pingServer\<close> requests port 8080, and a 200 from whatever answers there makes it
  return nil.
\<close>

theorem probe_targets_other_endpoint:
  "fst (server_listen (withAddr ''127.0.0.1:18081'')) = ''127.0.0.1:18081'' \<and>
   pingServer (withAddr ''127.0.0.1:18081'') (target (up False)) =
     (None, [Get ''http://127.0.0.1:8080/sd/health'']) \<and>
   \<not> self_targeting (withAddr ''127.0.0.1:18081'')"
  by (simp add: server_listen_def Let_def withAddr_def c_String_def c_Int_def lookupFlag_def
        serverFlags_def pingServer_def pingServer_loop.simps up_def self_targeting_def)

text \<open>
  Claim C8, amended. With a budget of at least one, \<^verbatim>\<open>pingServer\<close> issues a GET, and
  every GET it issues goes to the configured url followed by \<^verbatim>\<open>/sd/health\<close>; Load
  registers GET \<^verbatim>\<open>/sd/health\<close> (handler \<^verbatim>\<open>sd.HealthCheck\<close>) on the gin engine that
  \<^verbatim>\<open>server\<close> hands to \<^verbatim>\<open>http.ListenAndServe\<close>, which listens on the configured
  addr. The probe targets the process's own listener when the url is that addr over
  http, as the defaults of the two flags are.
\<close>

theorem probe_targets_served_route:
  "(1 \<le> c_Int c ''max-ping-count'' \<longrightarrow>
      (\<exists>rest. snd (pingServer c t) = Get (c_String c ''url'' @ ''/sd/health'') # rest)) \<and>
   gets (snd (pingServer c t)) =
     replicate (attempts (snd (pingServer c t))) (c_String c ''url'' @ ''/sd/health'') \<and>
   lookupRoute (snd (server_listen c)) ''GET'' ''/sd/health'' = Some ''sd.HealthCheck'' \<and>
   fst (server_listen c) = c_String c ''addr'' \<and>
   (self_targeting c \<longrightarrow>
      gets (snd (pingServer c t)) =
        replicate (attempts (snd (pingServer c t)))
          (''http://'' @ fst (server_listen c) @ ''/sd/health'')) \<and>
   self_targeting defaults"
proof -
  have g: "gets (snd (pingServer c t)) =
     replicate (attempts (snd (pingServer c t))) (c_String c ''url'' @ ''/sd/health'')"
  proof -
    have "\<forall>u \<in> set (gets (snd (pingServer c t))). u = c_String c ''url'' @ ''/sd/health''"
      using pingServer_events [of c t] by (auto simp: set_gets failed_round_def)
    then show ?thesis
      unfolding attempts_def by (simp add: replicate_length_same)
  qed
  have f: "1 \<le> c_Int c ''max-ping-count'' \<longrightarrow>
      (\<exists>rest. snd (pingServer c t) = Get (c_String c ''url'' @ ''/sd/health'') # rest)"
    using pingServer_first_get [of c t] by blast
  have l: "lookupRoute (snd (server_listen c)) ''GET'' ''/sd/health'' = Some ''sd.HealthCheck''"
    by (simp add: lookupRoute_def server_listen_def Load_def handle_def Use_def Group_def
          joinPaths_def gin_New_def Let_def)
  have a: "fst (server_listen c) = c_String c ''addr''"
    by (simp add: server_listen_def Let_def)
  have s: "self_targeting c \<longrightarrow>
      gets (snd (pingServer c t)) =
        replicate (attempts (snd (pingServer c t)))
          (''http://'' @ fst (server_listen c) @ ''/sd/health'')"
    using g a by (simp add: self_targeting_def)
  have d: "self_targeting defaults"
    by (simp add: self_targeting_def c_String_defaults)
  from f g l a s d show ?thesis by blast
qed

theorem probe_targets_served_route_witness:
  "pingServer defaults (target (up False)) = (None, [Get ''http://127.0.0.1:8080/sd/health'']) \<and>
   fst (server_listen defaults) = ''127.0.0.1:8080'' \<and>
   lookupRoute (snd (server_listen defaults)) ''GET'' ''/sd/health'' = Some ''sd.HealthCheck'' \<and>
   self_targeting defaults \<and>
   gets (snd (pingServer defaults (target (up False)))) =
     [''http://'' @ fst (server_listen defaults) @ ''/sd/health'']"
proof -
  have p: "pingServer defaults (target (up False)) = (None, [Get ''http://127.0.0.1:8080/sd/health''])"
    by (simp add: pingServer_def pingServer_loop.simps c_Int_defaults c_String_defaults up_def)
  have n: "attempts (snd (pingServer defaults (target (up False)))) = 1"
    by (simp add: p attempts_def)
  show ?thesis
    using probe_targets_served_route [of defaults "target (up False)"] p
    by (simp add: n c_String_defaults)
qed

end
